theory Spec2Isabelle
  imports Main
begin

section \<open>Control signals and ambient context\<close>

text \<open>
  Modelled from the spec: the sentinel errors \<^verbatim>\<open>StopAndForget\<close> and
  \<^verbatim>\<open>StopWithRequeue\<close> of package \<^verbatim>\<open>composed\<close>, declared outside the files at hand.
  Section 4.1 gives the control-signal vocabulary: continue, stop-and-forget,
  stop-and-requeue and propagate (any other error). A step reports its outcome through
  Go's \<^verbatim>\<open>error\<close> interface, where \<^verbatim>\<open>nil\<close> means continue; a possibly-nil
  \<^verbatim>\<open>error\<close> is an \<open>error option\<close>. \<^verbatim>\<open>fmt.Errorf("...: %w", err)\<close> is the
  constructor \<open>Wrapped\<close>.
\<close>

datatype error =
    StopAndForget
  | StopWithRequeue
  | ErrorString string
  | Wrapped string error

text \<open>A \<^verbatim>\<open>context.Context\<close> is opaque to the engine; it is only passed on.\<close>

datatype "context" = Context string

section \<open>Conditions (k8s.io/apimachinery)\<close>

text \<open>
  \<^verbatim>\<open>metav1.Condition\<close>. \<open>Status\<close> is the string type \<^verbatim>\<open>ConditionStatus\<close>;
  \<open>ObservedGeneration\<close> is an \<^verbatim>\<open>int64\<close> that is only copied and compared; an
  instant is counted from the zero time, so \<^verbatim>\<open>IsZero\<close> is equality with \<open>0\<close>.
\<close>

type_synonym Time = nat

definition IsZero :: "Time \<Rightarrow> bool" where
  "IsZero t = (t = 0)"

record Condition =
  Type :: string
  Status :: string
  ObservedGeneration :: int
  LastTransitionTime :: Time
  Reason :: string
  Message :: string

text \<open>
  The branch of \<^verbatim>\<open>meta.SetStatusCondition\<close> that finds no entry of the type: the new
  condition is appended, stamped with \<^verbatim>\<open>time.Now()\<close> when it carries no time.
\<close>

definition appendedCondition :: "Time \<Rightarrow> Condition \<Rightarrow> Condition" where
  "appendedCondition now newCondition =
     (if IsZero (LastTransitionTime newCondition)
      then newCondition\<lparr>LastTransitionTime := now\<rparr>
      else newCondition)"

text \<open>
  The branch that finds \<^verbatim>\<open>existingCondition\<close>: status (with the transition time), reason,
  message and observed generation are overwritten field by field; the entry stays in place.
\<close>

definition updateExisting :: "Time \<Rightarrow> Condition \<Rightarrow> Condition \<Rightarrow> Condition" where
  "updateExisting now existingCondition newCondition =
     (let e1 = (if Status existingCondition \<noteq> Status newCondition
                then existingCondition
                       \<lparr>Status := Status newCondition,
                        LastTransitionTime :=
                          (if \<not> IsZero (LastTransitionTime newCondition)
                           then LastTransitionTime newCondition else now)\<rparr>
                else existingCondition);
          e2 = (if Reason e1 \<noteq> Reason newCondition
                then e1\<lparr>Reason := Reason newCondition\<rparr> else e1);
          e3 = (if Message e2 \<noteq> Message newCondition
                then e2\<lparr>Message := Message newCondition\<rparr> else e2)
      in (if ObservedGeneration e3 \<noteq> ObservedGeneration newCondition
          then e3\<lparr>ObservedGeneration := ObservedGeneration newCondition\<rparr> else e3))"

text \<open>
  \<^verbatim>\<open>meta.SetStatusCondition(conditions, newCondition)\<close>: \<^verbatim>\<open>FindStatusCondition\<close> walks
  to the first entry of the type; that entry is updated in place, or the new condition is
  appended when the walk finds none. \<open>now\<close> is what \<^verbatim>\<open>time.Now()\<close> returns during the
  call. The result is the slice afterwards (the callers here discard the \<^verbatim>\<open>changed\<close> flag).
\<close>

fun SetStatusCondition :: "Time \<Rightarrow> Condition list \<Rightarrow> Condition \<Rightarrow> Condition list" where
  "SetStatusCondition now [] newCondition = [appendedCondition now newCondition]"
| "SetStatusCondition now (c # conditions) newCondition =
     (if Type c = Type newCondition
      then updateExisting now c newCondition # conditions
      else c # SetStatusCondition now conditions newCondition)"

text \<open>
  \<^verbatim>\<open>meta.RemoveStatusCondition(conditions, conditionType)\<close>: an empty slice is left
  alone, otherwise every entry of the type is dropped.
\<close>

definition RemoveStatusCondition :: "Condition list \<Rightarrow> string \<Rightarrow> Condition list" where
  "RemoveStatusCondition conditions conditionType =
     (if length conditions = 0 then conditions
      else filter (\<lambda>condition. Type condition \<noteq> conditionType) conditions)"

section \<open>The status-update builder (updateStatus.go)\<close>

text \<open>
  \<^verbatim>\<open>ObjWithConditions\<close>: the object the builder points to. The model keeps what
  \<^verbatim>\<open>Run\<close> reads of it: its dynamic type (printed by \<^verbatim>\<open>%T\<close>) and the slice behind
  \<^verbatim>\<open>Conditions()\<close>, which is taken to be non-nil.
\<close>

record ObjWithConditions =
  GoType :: string
  Conditions :: "Condition list"

text \<open>
  What a run does to the outside is kept as a list of events, in the order of the calls:
  the persistence call with the object it was given, the application of the error wrapper,
  and whatever the hooks emit (the default error hook logs).
\<close>

datatype event =
    UpdateObjStatusCalled "context" ObjWithConditions
  | UpdateErrorWrapperCalled error
  | LogError "error option" string
  | HookEvent string

type_synonym hookResult = "(error option \<times> context option) \<times> event list"

text \<open>
  \<^verbatim>\<open>composed.State\<close> is an interface; \<^verbatim>\<open>Run\<close> uses its method
  \<^verbatim>\<open>UpdateObjStatus(ctx) error\<close> only. The collaborator answers \<^verbatim>\<open>nil\<close> or an error
  for the object as it stands when it is called.
\<close>

record State =
  UpdateObjStatus :: "context \<Rightarrow> ObjWithConditions \<Rightarrow> error option"

text \<open>
  \<^verbatim>\<open>UpdateStatusBuilder\<close>. \<^verbatim>\<open>conditionsToKeep\<close> is a \<^verbatim>\<open>map[string]struct{}\<close>, a set
  of strings. A nil error or a nil function is \<open>None\<close>. The wrapper and the hooks are
  functions of their arguments: they answer, the hooks may emit events, and they leave
  the object alone.
\<close>

record UpdateStatusBuilder =
  obj :: ObjWithConditions
  doRemoveConditions :: bool
  conditionsToKeep :: "string set"
  conditionsToSet :: "Condition list"
  updateErrorLogMsg :: string
  failedError :: "error option"
  successError :: "error option"
  updateErrorWrapper :: "(error \<Rightarrow> error option) option"
  onUpdateError :: "(context \<Rightarrow> error option \<Rightarrow> hookResult) option"
  onUpdateSuccess :: "(context \<Rightarrow> hookResult) option"

definition UpdateStatus :: "ObjWithConditions \<Rightarrow> UpdateStatusBuilder" where
  "UpdateStatus ob =
     \<lparr>obj = ob, doRemoveConditions = False, conditionsToKeep = {},
      conditionsToSet = [], updateErrorLogMsg = [], failedError = None,
      successError = None, updateErrorWrapper = None, onUpdateError = None,
      onUpdateSuccess = None\<rparr>"

definition RemoveAllConditionsExcept ::
  "string list \<Rightarrow> UpdateStatusBuilder \<Rightarrow> UpdateStatusBuilder" where
  "RemoveAllConditionsExcept conditionTypes b =
     b\<lparr>conditionsToKeep := fold insert conditionTypes (conditionsToKeep b)\<rparr>"

definition KeepAllConditions :: "UpdateStatusBuilder \<Rightarrow> UpdateStatusBuilder" where
  "KeepAllConditions b = b\<lparr>doRemoveConditions := False\<rparr>"

definition SetCondition :: "Condition \<Rightarrow> UpdateStatusBuilder \<Rightarrow> UpdateStatusBuilder" where
  "SetCondition cond b = b\<lparr>conditionsToSet := conditionsToSet b @ [cond]\<rparr>"

definition ErrorLogMessage :: "string \<Rightarrow> UpdateStatusBuilder \<Rightarrow> UpdateStatusBuilder" where
  "ErrorLogMessage msg b = b\<lparr>updateErrorLogMsg := msg\<rparr>"

definition UpdateErrorWrapper ::
  "(error \<Rightarrow> error option) option \<Rightarrow> UpdateStatusBuilder \<Rightarrow> UpdateStatusBuilder" where
  "UpdateErrorWrapper f b = b\<lparr>updateErrorWrapper := f\<rparr>"

definition OnUpdateError ::
  "(context \<Rightarrow> error option \<Rightarrow> hookResult) option \<Rightarrow> UpdateStatusBuilder
     \<Rightarrow> UpdateStatusBuilder" where
  "OnUpdateError f b = b\<lparr>onUpdateError := f\<rparr>"

definition OnUpdateSuccess ::
  "(context \<Rightarrow> hookResult) option \<Rightarrow> UpdateStatusBuilder \<Rightarrow> UpdateStatusBuilder" where
  "OnUpdateSuccess f b = b\<lparr>onUpdateSuccess := f\<rparr>"

definition FailedError :: "error option \<Rightarrow> UpdateStatusBuilder \<Rightarrow> UpdateStatusBuilder" where
  "FailedError err b = b\<lparr>failedError := err\<rparr>"

definition SuccessError :: "error option \<Rightarrow> UpdateStatusBuilder \<Rightarrow> UpdateStatusBuilder" where
  "SuccessError err b = b\<lparr>successError := err\<rparr>"

text \<open>
  Modelled from the spec: \<^verbatim>\<open>composed.LogErrorAndReturn(err, msg, result, ctx)\<close>, which
  is not among the files at hand. Section 4.4 has the default error hook log the (wrapped)
  error and return the configured failure signal: the helper logs \<open>err\<close> under \<open>msg\<close> and
  returns \<open>result\<close> with the context it was given.
\<close>

definition LogErrorAndReturn ::
  "error option \<Rightarrow> string \<Rightarrow> error option \<Rightarrow> context option \<Rightarrow> hookResult" where
  "LogErrorAndReturn err msg result ctx = ((result, ctx), [LogError err msg])"

text \<open>
  \<^verbatim>\<open>setDefaults\<close>, statement by statement. The two default hooks are closures over the
  builder; they read \<^verbatim>\<open>updateErrorLogMsg\<close>, \<^verbatim>\<open>failedError\<close> and \<^verbatim>\<open>successError\<close>
  when called, and nothing between \<^verbatim>\<open>setDefaults\<close> and their call in \<^verbatim>\<open>Run\<close> assigns
  these fields, so the closures hold the values the fields have here.
\<close>

definition setDefaults :: "UpdateStatusBuilder \<Rightarrow> UpdateStatusBuilder" where
  "setDefaults b0 =
     (let b1 = b0\<lparr>updateErrorLogMsg := ''Error updating status for '' @ GoType (obj b0)\<rparr>;
          b2 = b1\<lparr>doRemoveConditions := True\<rparr>;
          b3 = (if updateErrorWrapper b2 = None
                then b2\<lparr>updateErrorWrapper := Some (\<lambda>err. Some err)\<rparr> else b2);
          b4 = (if successError b3 = None
                then b3\<lparr>successError := Some StopAndForget\<rparr> else b3);
          b5 = (if failedError b4 = None
                then b4\<lparr>failedError := Some StopWithRequeue\<rparr> else b4);
          b6 = (if onUpdateError b5 = None
                then b5\<lparr>onUpdateError :=
                        Some (\<lambda>ctx err. LogErrorAndReturn err (updateErrorLogMsg b5)
                                          (failedError b5) None)\<rparr>
                else b5)
      in (if onUpdateSuccess b6 = None
          then b6\<lparr>onUpdateSuccess := Some (\<lambda>ctx. ((successError b6, None), []))\<rparr>
          else b6))"

text \<open>The first loop of \<^verbatim>\<open>Run\<close>: the types to remove, collected in slice order.\<close>

fun conditionsToRemove :: "string set \<Rightarrow> Condition list \<Rightarrow> string list" where
  "conditionsToRemove keepSet [] = []"
| "conditionsToRemove keepSet (c # cs) =
     (if Type c \<in> keepSet then conditionsToRemove keepSet cs
      else Type c # conditionsToRemove keepSet cs)"

text \<open>The second loop: one \<^verbatim>\<open>RemoveStatusCondition\<close> per collected type.\<close>

fun removeConditions :: "string list \<Rightarrow> Condition list \<Rightarrow> Condition list" where
  "removeConditions [] conditions = conditions"
| "removeConditions (c # cs) conditions =
     removeConditions cs (RemoveStatusCondition conditions c)"

text \<open>
  The third loop: one \<^verbatim>\<open>SetStatusCondition\<close> per configured condition. \<open>clock i\<close> is
  the reading of \<^verbatim>\<open>time.Now()\<close> during the call for the entry at index \<open>i\<close>.
\<close>

fun setConditions ::
  "(nat \<Rightarrow> Time) \<Rightarrow> nat \<Rightarrow> Condition list \<Rightarrow> Condition list \<Rightarrow> Condition list" where
  "setConditions clock i [] conditions = conditions"
| "setConditions clock i (c # cs) conditions =
     setConditions clock (Suc i) cs (SetStatusCondition (clock i) conditions c)"

text \<open>
  What a run leaves behind: the pair \<^verbatim>\<open>Run\<close> returns, the builder (with its object) as
  the run left it, and the events in call order.
\<close>

record RunResult =
  returned :: "error option \<times> context option"
  builder :: UpdateStatusBuilder
  events :: "event list"

text \<open>Calling a nil function value panics.\<close>

datatype panic = NilFunctionCall

text \<open>
  \<^verbatim>\<open>Run\<close>. The object of the state is the builder's object, as at every call site, so
  the persistence call sees the conditions as the loops left them.
\<close>

definition Run ::
  "(nat \<Rightarrow> Time) \<Rightarrow> UpdateStatusBuilder \<Rightarrow> context \<Rightarrow> State \<Rightarrow> panic + RunResult" where
  "Run clock b0 ctx state =
     (let b = setDefaults b0;
          cs0 = Conditions (obj b);
          cs1 = (if doRemoveConditions b
                 then removeConditions (conditionsToRemove (conditionsToKeep b) cs0) cs0
                 else cs0);
          cs2 = setConditions clock 0 (conditionsToSet b) cs1;
          b' = b\<lparr>obj := (obj b)\<lparr>Conditions := cs2\<rparr>\<rparr>;
          called = UpdateObjStatusCalled ctx (obj b')
      in case UpdateObjStatus state ctx (obj b') of
           Some err \<Rightarrow>
             (case updateErrorWrapper b' of
                None \<Rightarrow> Inl NilFunctionCall
              | Some wrapper \<Rightarrow>
                  (case onUpdateError b' of
                     None \<Rightarrow> Inl NilFunctionCall
                   | Some hook \<Rightarrow>
                       (case hook ctx (wrapper err) of
                          (r, emitted) \<Rightarrow>
                            Inr \<lparr>returned = r, builder = b',
                                 events = [called, UpdateErrorWrapperCalled err] @ emitted\<rparr>)))
         | None \<Rightarrow>
             (case onUpdateSuccess b' of
                None \<Rightarrow> Inl NilFunctionCall
              | Some hook \<Rightarrow>
                  (case hook ctx of
                     (r, emitted) \<Rightarrow>
                       Inr \<lparr>returned = r, builder = b', events = called # emitted\<rparr>)))"

section \<open>Composed actions (package composed)\<close>

text \<open>
  An \<^verbatim>\<open>Action\<close> is \<^verbatim>\<open>func(ctx, state) (error, context.Context)\<close>. The state is a
  reference shared by all steps; what the steps change (the state behind the reference
  and everything outside the process) is the world \<open>'w\<close>, passed explicitly.
\<close>

type_synonym ('s, 'w) Action =
  "context \<Rightarrow> 's \<Rightarrow> 'w \<Rightarrow> (error option \<times> context option) \<times> 'w"

text \<open>
  Modelled from the spec: \<^verbatim>\<open>composed.ComposeActions(name, actions...)\<close>, defined outside
  the files at hand. Section 4.2: the steps run in declared order against the shared
  state; after a step that continues, the next one runs with the context the step handed
  back, if any; any other signal is returned at once and no later step runs; when the
  list is exhausted the composer returns continue. The name has no semantic effect.
\<close>

fun ComposeActions :: "string \<Rightarrow> ('s, 'w) Action list \<Rightarrow> ('s, 'w) Action" where
  "ComposeActions name [] ctx state w = ((None, Some ctx), w)"
| "ComposeActions name (a # actions) ctx state w =
     (case a ctx state w of
        ((None, nextCtx), w') \<Rightarrow>
          ComposeActions name actions
            (case nextCtx of None \<Rightarrow> ctx | Some c \<Rightarrow> c) state w'
      | ((Some err, nextCtx), w') \<Rightarrow> ((Some err, nextCtx), w'))"

text \<open>
  Modelled from the spec: predicates, cases and \<^verbatim>\<open>composed.BuildSwitchAction\<close>, defined
  outside the files at hand. Section 3 and section 4.3: a predicate is a pure boolean
  test over the state; the cases are tried in declaration order, the pipeline of the
  first case whose predicate holds runs and its result is returned, and the default
  pipeline runs when no predicate holds.
\<close>

type_synonym ('s, 'w) Predicate = "'s \<Rightarrow> 'w \<Rightarrow> bool"

type_synonym ('s, 'w) Case = "('s, 'w) Predicate \<times> ('s, 'w) Action"

definition NewCase :: "('s, 'w) Predicate \<Rightarrow> ('s, 'w) Action \<Rightarrow> ('s, 'w) Case" where
  "NewCase p a = (p, a)"

fun BuildSwitchAction ::
  "string \<Rightarrow> ('s, 'w) Action \<Rightarrow> ('s, 'w) Case list \<Rightarrow> ('s, 'w) Action" where
  "BuildSwitchAction name defaultAction [] ctx state w = defaultAction ctx state w"
| "BuildSwitchAction name defaultAction ((p, a) # cases) ctx state w =
     (if p state w then a ctx state w
      else BuildSwitchAction name defaultAction cases ctx state w)"

text \<open>
  Modelled from the spec: \<^verbatim>\<open>composed.StopAndForgetAction\<close>, the step that ends the
  pass with stop-and-forget and touches nothing.
\<close>

definition StopAndForgetAction :: "('s, 'w) Action" where
  "StopAndForgetAction ctx state w = ((Some StopAndForget, None), w)"

section \<open>The AWS IpRange action (package iprange)\<close>

text \<open>
  \<^verbatim>\<open>StateFactory\<close> is an interface of package \<^verbatim>\<open>iprange\<close>; \<^verbatim>\<open>New\<close> calls its
  \<^verbatim>\<open>NewState(ctx, typesState)\<close>, which answers with a state or with an error and may act
  on the world.
\<close>

record ('ts, 's, 'w) StateFactory =
  NewState :: "context \<Rightarrow> 'ts \<Rightarrow> 'w \<Rightarrow> (error + 's) \<times> 'w"

text \<open>
  What \<^verbatim>\<open>New\<close> takes from its surroundings: the type assertion
  \<^verbatim>\<open>st.(iprangetypes.State)\<close> (\<open>None\<close> where it fails), the logger of the context
  (\<^verbatim>\<open>composed.LoggerFromCtx(ctx).Error(err, msg)\<close>) and the deletion predicate.
\<close>

record ('st, 'ts, 's, 'w) Surroundings =
  assertTypesState :: "'st \<Rightarrow> 'ts option"
  loggerError :: "context \<Rightarrow> error \<Rightarrow> string \<Rightarrow> 'w \<Rightarrow> 'w"
  MarkedForDeletionPredicate :: "('s, 'w) Predicate"

text \<open>The steps of the two pipelines are functions of package \<^verbatim>\<open>iprange\<close> kept in other files.\<close>

record ('s, 'w) Steps =
  addFinalizer :: "('s, 'w) Action"
  preventCidrEdit :: "('s, 'w) Action"
  splitRangeByZones :: "('s, 'w) Action"
  ensureShootZonesAndRangeSubnetsMatch :: "('s, 'w) Action"
  loadVpc :: "('s, 'w) Action"
  checkCidrOverlap :: "('s, 'w) Action"
  checkCidrBlockStatus :: "('s, 'w) Action"
  extendVpcAddressSpace :: "('s, 'w) Action"
  loadSubnets :: "('s, 'w) Action"
  findCloudResourceSubnets :: "('s, 'w) Action"
  checkSubnetOverlap :: "('s, 'w) Action"
  createSubnets :: "('s, 'w) Action"
  updateSuccessStatus :: "('s, 'w) Action"
  removeReadyCondition :: "('s, 'w) Action"
  deleteSubnets :: "('s, 'w) Action"
  waitSubnetsDeleted :: "('s, 'w) Action"
  disassociateVpcAddressSpace :: "('s, 'w) Action"
  waitCidrBlockDisassociated :: "('s, 'w) Action"
  removeFinalizer :: "('s, 'w) Action"

text \<open>The non-delete and the delete pipeline, as \<^verbatim>\<open>New\<close> lists them.\<close>

definition nonDeletePipeline :: "('s, 'w) Steps \<Rightarrow> ('s, 'w) Action" where
  "nonDeletePipeline steps =
     ComposeActions ''awsIpRange-non-delete''
       [addFinalizer steps, preventCidrEdit steps, splitRangeByZones steps,
        ensureShootZonesAndRangeSubnetsMatch steps, loadVpc steps, checkCidrOverlap steps,
        checkCidrBlockStatus steps, extendVpcAddressSpace steps, loadSubnets steps,
        findCloudResourceSubnets steps, checkSubnetOverlap steps, createSubnets steps,
        updateSuccessStatus steps, StopAndForgetAction]"

definition deletePipeline :: "('s, 'w) Steps \<Rightarrow> ('s, 'w) Action" where
  "deletePipeline steps =
     ComposeActions ''awsIpRange-delete''
       [removeReadyCondition steps, loadVpc steps, loadSubnets steps,
        findCloudResourceSubnets steps, deleteSubnets steps, waitSubnetsDeleted steps,
        disassociateVpcAddressSpace steps, waitCidrBlockDisassociated steps,
        removeFinalizer steps]"

text \<open>
  \<^verbatim>\<open>New\<close>. The argument of \<^verbatim>\<open>NewState\<close> is evaluated first, so a state of another
  type panics before the factory is called. On an error of the factory the wrapped error
  is logged and the action returns \<^verbatim>\<open>composed.StopAndForget, nil\<close>; otherwise the
  switch runs on the new state.
\<close>

datatype newPanic = TypeAssertionFailed

definition New ::
  "('ts, 's, 'w) StateFactory \<Rightarrow> ('st, 'ts, 's, 'w) Surroundings \<Rightarrow> ('s, 'w) Steps
     \<Rightarrow> context \<Rightarrow> 'st \<Rightarrow> 'w \<Rightarrow> newPanic + (error option \<times> context option) \<times> 'w" where
  "New stateFactory env steps ctx st w =
     (case assertTypesState env st of
        None \<Rightarrow> Inl TypeAssertionFailed
      | Some typesState \<Rightarrow>
          (case NewState stateFactory ctx typesState w of
             (Inl err, w1) \<Rightarrow>
               (let err' = Wrapped ''error creating new aws iprange state'' err;
                    w2 = loggerError env ctx err' ''Error'' w1
                in Inr ((Some StopAndForget, None), w2))
           | (Inr state, w1) \<Rightarrow>
               Inr (BuildSwitchAction ''awsIpRange''
                      (nonDeletePipeline steps)
                      [NewCase (MarkedForDeletionPredicate env) (deletePipeline steps)]
                      ctx state w1)))"

section \<open>The run, step by step\<close>

text \<open>
  The object as the two removal loops and the upsert loop of \<^verbatim>\<open>Run\<close> leave it: only
  the entries whose type is in the keep set survive, then every configured condition is
  set, in order.
\<close>

definition mutatedObj :: "(nat \<Rightarrow> Time) \<Rightarrow> UpdateStatusBuilder \<Rightarrow> ObjWithConditions" where
  "mutatedObj clock b =
     (obj b)\<lparr>Conditions :=
        setConditions clock 0 (conditionsToSet b)
          (filter (\<lambda>c. Type c \<in> conditionsToKeep b) (Conditions (obj b)))\<rparr>"

text \<open>The errors the error wrapper was applied to, in call order.\<close>

definition wrapperCalls :: "event list \<Rightarrow> error list" where
  "wrapperCalls evs =
     concat (map (\<lambda>e. case e of UpdateErrorWrapperCalled err \<Rightarrow> [err] | _ \<Rightarrow> []) evs)"











section \<open>Auxiliary notions for the proofs\<close>

text \<open>
  A condition with the clock reading filled in where it carries no time. Setting the
  stamped condition with a clock at the zero time is the same as setting the original
  one, which turns the upsert loop into a fold that no longer mentions the clock.
\<close>

definition stamped :: "Time \<Rightarrow> Condition \<Rightarrow> Condition" where
  "stamped now c = c\<lparr>LastTransitionTime :=
      (if IsZero (LastTransitionTime c) then now else LastTransitionTime c)\<rparr>"

fun stampedList :: "(nat \<Rightarrow> Time) \<Rightarrow> nat \<Rightarrow> Condition list \<Rightarrow> Condition list" where
  "stampedList clock i [] = []"
| "stampedList clock i (c # cs) = stamped (clock i) c # stampedList clock (Suc i) cs"

abbreviation updates :: "Condition list \<Rightarrow> Condition \<Rightarrow> Condition" where
  "updates L x \<equiv> fold (\<lambda>c e. updateExisting 0 e c) L x"



section \<open>Example inputs\<close>

definition condA :: Condition where
  "condA = \<lparr>Type = ''A'', Status = ''True'', ObservedGeneration = 1,
            LastTransitionTime = 5, Reason = ''Provisioned'', Message = ''a''\<rparr>"

definition condB :: Condition where
  "condB = \<lparr>Type = ''B'', Status = ''False'', ObservedGeneration = 1,
            LastTransitionTime = 6, Reason = ''Pending'', Message = ''b''\<rparr>"

definition objAB :: ObjWithConditions where
  "objAB = \<lparr>GoType = ''*v1beta1.IpRange'', Conditions = [condA, condB]\<rparr>"

definition readyOld :: Condition where
  "readyOld = \<lparr>Type = ''Ready'', Status = ''False'', ObservedGeneration = 1,
               LastTransitionTime = 3, Reason = ''Provisioning'', Message = ''wait''\<rparr>"

definition overlap :: Condition where
  "overlap = \<lparr>Type = ''Overlap'', Status = ''True'', ObservedGeneration = 1,
              LastTransitionTime = 4, Reason = ''CidrOverlap'', Message = ''overlaps''\<rparr>"

definition readyNew :: Condition where
  "readyNew = \<lparr>Type = ''Ready'', Status = ''True'', ObservedGeneration = 2,
               LastTransitionTime = 0, Reason = ''Ready'', Message = ''done''\<rparr>"

definition objReadyOverlap :: ObjWithConditions where
  "objReadyOverlap = \<lparr>GoType = ''*v1beta1.IpRange'', Conditions = [readyOld, overlap]\<rparr>"

definition readyBuilder :: UpdateStatusBuilder where
  "readyBuilder =
     SetCondition readyNew (RemoveAllConditionsExcept [''Ready''] (UpdateStatus objReadyOverlap))"

definition failingState :: State where
  "failingState = \<lparr>UpdateObjStatus = (\<lambda>ctx ob. Some (ErrorString ''conflict''))\<rparr>"

definition succeedingState :: State where
  "succeedingState = \<lparr>UpdateObjStatus = (\<lambda>ctx ob. None)\<rparr>"




definition noisyStep :: "(nat, string list) Action" where
  "noisyStep ctx state w = ((None, None), w @ [''step''])"

definition noisySteps :: "(nat, string list) Steps" where
  "noisySteps =
     \<lparr>addFinalizer = noisyStep, preventCidrEdit = noisyStep, splitRangeByZones = noisyStep,
      ensureShootZonesAndRangeSubnetsMatch = noisyStep, loadVpc = noisyStep,
      checkCidrOverlap = noisyStep, checkCidrBlockStatus = noisyStep,
      extendVpcAddressSpace = noisyStep, loadSubnets = noisyStep,
      findCloudResourceSubnets = noisyStep, checkSubnetOverlap = noisyStep,
      createSubnets = noisyStep, updateSuccessStatus = noisyStep,
      removeReadyCondition = noisyStep, deleteSubnets = noisyStep,
      waitSubnetsDeleted = noisyStep, disassociateVpcAddressSpace = noisyStep,
      waitCidrBlockDisassociated = noisyStep, removeFinalizer = noisyStep\<rparr>"

definition failingFactory :: "(nat, nat, string list) StateFactory" where
  "failingFactory =
     \<lparr>NewState = (\<lambda>ctx typesState w. (Inl (ErrorString ''no client''), w @ [''NewState'']))\<rparr>"

definition exampleSurroundings :: "(nat, nat, nat, string list) Surroundings" where
  "exampleSurroundings =
     \<lparr>assertTypesState = Some,
      loggerError = (\<lambda>ctx err msg w. w @ [''log: '' @ msg]),
      MarkedForDeletionPredicate = (\<lambda>state w. False)\<rparr>"

section \<open>Auxiliary lemmas\<close>

subsection \<open>The removal loops and the defaults\<close>

lemma RemoveStatusCondition_filter:
  "RemoveStatusCondition cs t = filter (\<lambda>c. Type c \<noteq> t) cs"
  by (simp add: RemoveStatusCondition_def)

lemma removeConditions_filter:
  "removeConditions ts cs = filter (\<lambda>c. Type c \<notin> set ts) cs"
proof (induction ts arbitrary: cs)
  case Nil
  show ?case by simp
next
  case (Cons t ts)
  have "filter (\<lambda>c. Type c \<notin> set ts) (filter (\<lambda>c. Type c \<noteq> t) cs)
          = filter (\<lambda>c. Type c \<notin> set (t # ts)) cs"
    by (simp add: conj_commute)
  with Cons show ?case by (simp add: RemoveStatusCondition_filter)
qed

lemma set_conditionsToRemove:
  "set (conditionsToRemove keepSet cs) = Type ` set cs - keepSet"
  by (induction cs) auto

lemma removal_loops:
  "removeConditions (conditionsToRemove keepSet cs) cs = filter (\<lambda>c. Type c \<in> keepSet) cs"
  unfolding removeConditions_filter set_conditionsToRemove
  by (rule filter_cong) auto

lemma setDefaults_fields:
  "obj (setDefaults b) = obj b"
  "doRemoveConditions (setDefaults b) = True"
  "conditionsToKeep (setDefaults b) = conditionsToKeep b"
  "conditionsToSet (setDefaults b) = conditionsToSet b"
  "updateErrorLogMsg (setDefaults b) = ''Error updating status for '' @ GoType (obj b)"
  by (simp_all add: setDefaults_def Let_def)

lemma setDefaults_signals:
  "successError (setDefaults b) = Some (case successError b of None \<Rightarrow> StopAndForget | Some e \<Rightarrow> e)"
  "failedError (setDefaults b) = Some (case failedError b of None \<Rightarrow> StopWithRequeue | Some e \<Rightarrow> e)"
  by (auto simp add: setDefaults_def Let_def split: option.splits)

lemma setDefaults_wrapper:
  "updateErrorWrapper (setDefaults b) =
     Some (case updateErrorWrapper b of None \<Rightarrow> (\<lambda>err. Some err) | Some f \<Rightarrow> f)"
  by (auto simp add: setDefaults_def Let_def split: option.splits)

lemma setDefaults_onUpdateError:
  "onUpdateError (setDefaults b) =
     Some (case onUpdateError b of
             None \<Rightarrow> (\<lambda>ctx err. LogErrorAndReturn err (''Error updating status for '' @ GoType (obj b))
                         (Some (case failedError b of None \<Rightarrow> StopWithRequeue | Some e \<Rightarrow> e)) None)
           | Some h \<Rightarrow> h)"
  by (auto simp add: setDefaults_def Let_def split: option.splits)

lemma setDefaults_onUpdateSuccess:
  "onUpdateSuccess (setDefaults b) =
     Some (case onUpdateSuccess b of
             None \<Rightarrow> (\<lambda>ctx. ((Some (case successError b of None \<Rightarrow> StopAndForget | Some e \<Rightarrow> e), None), []))
           | Some h \<Rightarrow> h)"
  by (auto simp add: setDefaults_def Let_def split: option.splits)


subsection \<open>What a run returns\<close>

lemma Run_failure:
  assumes "UpdateObjStatus state ctx (mutatedObj clock b) = Some err"
  shows "Run clock b ctx state =
     Inr (case (the (onUpdateError (setDefaults b))) ctx (the (updateErrorWrapper (setDefaults b)) err) of
       (r, emitted) \<Rightarrow> \<lparr>returned = r, builder = (setDefaults b)\<lparr>obj := mutatedObj clock b\<rparr>,
          events = [UpdateObjStatusCalled ctx (mutatedObj clock b), UpdateErrorWrapperCalled err] @ emitted\<rparr>)"
  using assms
  by (simp add: Run_def Let_def setDefaults_fields removal_loops mutatedObj_def
        setDefaults_wrapper setDefaults_onUpdateError split: prod.splits)

lemma Run_success:
  assumes "UpdateObjStatus state ctx (mutatedObj clock b) = None"
  shows "Run clock b ctx state =
     Inr (case (the (onUpdateSuccess (setDefaults b))) ctx of
       (r, emitted) \<Rightarrow> \<lparr>returned = r, builder = (setDefaults b)\<lparr>obj := mutatedObj clock b\<rparr>,
          events = UpdateObjStatusCalled ctx (mutatedObj clock b) # emitted\<rparr>)"
  using assms
  by (simp add: Run_def Let_def setDefaults_fields removal_loops mutatedObj_def
        setDefaults_onUpdateSuccess split: prod.splits)

lemma Run_object:
  "\<exists>r. Run clock b ctx state = Inr r \<and> obj (builder r) = mutatedObj clock b
        \<and> conditionsToKeep (builder r) = conditionsToKeep b
        \<and> conditionsToSet (builder r) = conditionsToSet b"
proof (cases "UpdateObjStatus state ctx (mutatedObj clock b)")
  case None
  then show ?thesis
    by (simp add: Run_success setDefaults_fields split: prod.splits)
next
  case (Some err)
  then show ?thesis
    by (simp add: Run_failure setDefaults_fields split: prod.splits)
qed


subsection \<open>Stamping the clock reading\<close>

lemma stamped_fields [simp]:
  "Type (stamped now c) = Type c"
  "Status (stamped now c) = Status c"
  "Reason (stamped now c) = Reason c"
  "Message (stamped now c) = Message c"
  "ObservedGeneration (stamped now c) = ObservedGeneration c"
  by (simp_all add: stamped_def)






lemma map_Type_stampedList [simp]: "map Type (stampedList clock i L) = map Type L"
  by (induction L arbitrary: i) simp_all

subsection \<open>Repeated updates of one entry\<close>

lemma updateExisting_fields [simp]:
  "Type (updateExisting now e c) = Type e"
  "Status (updateExisting now e c) = Status c"
  "Reason (updateExisting now e c) = Reason c"
  "Message (updateExisting now e c) = Message c"
  "ObservedGeneration (updateExisting now e c) = ObservedGeneration c"
  by (simp_all add: updateExisting_def Let_def)



lemma updates_Type [simp]: "Type (updates L x) = Type x"
  by (induction L arbitrary: x) simp_all






subsection \<open>Upserts, type by type\<close>

lemma appendedCondition_Type [simp]: "Type (appendedCondition now c) = Type c"
  by (simp add: appendedCondition_def)











lemma map_Type_SetStatusCondition:
  "map Type (SetStatusCondition now cs c) =
     (if Type c \<in> set (map Type cs) then map Type cs else map Type cs @ [Type c])"
  by (induction cs) auto

lemma distinct_SetStatusCondition:
  "distinct (map Type cs) \<Longrightarrow> distinct (map Type (SetStatusCondition now cs c))"
  by (simp add: map_Type_SetStatusCondition)

lemma distinct_setConditions:
  "distinct (map Type cs) \<Longrightarrow> distinct (map Type (setConditions clock i L cs))"
  by (induction L arbitrary: i cs) (simp_all add: distinct_SetStatusCondition)




subsection \<open>Composed actions\<close>



subsection \<open>The specification's removal step\<close>


section \<open>The claims\<close>

subsection \<open>C1\<close>

text \<open>
  C1 (keep-all-conditions policy). The claim: a builder configured with
  \<^verbatim>\<open>KeepAllConditions\<close> and no conditions to set leaves the conditions A and B of the
  object as they are. The code does otherwise: \<^verbatim>\<open>setDefaults\<close> sets
  \<^verbatim>\<open>doRemoveConditions\<close> to true at the start of every run, after
  \<^verbatim>\<open>KeepAllConditions\<close> has set it to false, so with an empty keep set both conditions
  are removed, whatever the clock, the context and the answer of the persistence call.
\<close>

theorem KeepAllConditions_removes_all:
  "\<exists>r. Run clock (KeepAllConditions (UpdateStatus objAB)) ctx state = Inr r
       \<and> Conditions (obj (builder r)) = []
       \<and> Conditions (obj (KeepAllConditions (UpdateStatus objAB))) = [condA, condB]"
proof -
  obtain r where r: "Run clock (KeepAllConditions (UpdateStatus objAB)) ctx state = Inr r"
    and o: "obj (builder r) = mutatedObj clock (KeepAllConditions (UpdateStatus objAB))"
    using Run_object by blast
  have "Conditions (mutatedObj clock (KeepAllConditions (UpdateStatus objAB))) = []"
    by (simp add: mutatedObj_def KeepAllConditions_def UpdateStatus_def objAB_def)
  moreover have "Conditions (obj (KeepAllConditions (UpdateStatus objAB))) = [condA, condB]"
    by (simp add: KeepAllConditions_def UpdateStatus_def objAB_def)
  ultimately show ?thesis using r o by simp
qed

subsection \<open>C2\<close>

text \<open>
  C2 (default outcome of the persistence call). For a builder with no hooks, no failure
  or success signal and no error wrapper configured, the run returns. If the persistence
  call answers with an error, the (identity) wrapper is applied to that error exactly
  once, the error is logged unchanged and the run returns stop-and-requeue; if it answers
  nil, the wrapper is not applied and the run returns stop-and-forget.
\<close>

theorem Run_default_outcome:
  assumes "updateErrorWrapper b = None" and "onUpdateError b = None"
    and "onUpdateSuccess b = None" and "failedError b = None" and "successError b = None"
  shows "\<exists>r. Run clock b ctx state = Inr r \<and>
     (case UpdateObjStatus state ctx (mutatedObj clock b) of
        Some err \<Rightarrow>
          returned r = (Some StopWithRequeue, None) \<and> wrapperCalls (events r) = [err] \<and>
          events r = [UpdateObjStatusCalled ctx (mutatedObj clock b),
                      UpdateErrorWrapperCalled err,
                      LogError (Some err) (''Error updating status for '' @ GoType (obj b))]
      | None \<Rightarrow>
          returned r = (Some StopAndForget, None) \<and> wrapperCalls (events r) = [] \<and>
          events r = [UpdateObjStatusCalled ctx (mutatedObj clock b)])"
proof (cases "UpdateObjStatus state ctx (mutatedObj clock b)")
  case None
  with assms show ?thesis
    by (simp add: Run_success setDefaults_onUpdateSuccess wrapperCalls_def)
next
  case (Some err)
  with assms show ?thesis
    by (simp add: Run_failure setDefaults_onUpdateError setDefaults_wrapper
          LogErrorAndReturn_def wrapperCalls_def)
qed

theorem Run_default_outcome_witness:
  "(\<exists>r. Run (\<lambda>i. 9) (UpdateStatus objAB) (Context ''reconcile'') failingState = Inr r
        \<and> returned r = (Some StopWithRequeue, None)
        \<and> wrapperCalls (events r) = [ErrorString ''conflict''])
   \<and> (\<exists>r. Run (\<lambda>i. 9) (UpdateStatus objAB) (Context ''reconcile'') succeedingState = Inr r
        \<and> returned r = (Some StopAndForget, None)
        \<and> wrapperCalls (events r) = [])"
proof -
  have unset: "updateErrorWrapper (UpdateStatus objAB) = None"
    "onUpdateError (UpdateStatus objAB) = None" "onUpdateSuccess (UpdateStatus objAB) = None"
    "failedError (UpdateStatus objAB) = None" "successError (UpdateStatus objAB) = None"
    by (simp_all add: UpdateStatus_def)
  from Run_default_outcome [OF unset, of "\<lambda>i. 9" "Context ''reconcile''" failingState]
  have failing: "\<exists>r. Run (\<lambda>i. 9) (UpdateStatus objAB) (Context ''reconcile'') failingState = Inr r
        \<and> returned r = (Some StopWithRequeue, None)
        \<and> wrapperCalls (events r) = [ErrorString ''conflict'']"
    by (auto simp add: failingState_def)
  from Run_default_outcome [OF unset, of "\<lambda>i. 9" "Context ''reconcile''" succeedingState]
  have succeeding: "\<exists>r. Run (\<lambda>i. 9) (UpdateStatus objAB) (Context ''reconcile'') succeedingState = Inr r
        \<and> returned r = (Some StopAndForget, None)
        \<and> wrapperCalls (events r) = []"
    by (auto simp add: succeedingState_def)
  from failing succeeding show ?thesis by (rule conjI)
qed

subsection \<open>C3\<close>



subsection \<open>C4\<close>


subsection \<open>C5\<close>


subsection \<open>C6\<close>

text \<open>
  C6 (unique condition types). If no two conditions of the object have the same type
  before the run, the run returns and no two conditions of the object have the same type
  after it.
\<close>

theorem Run_unique_types:
  assumes "distinct (map Type (Conditions (obj b)))"
  shows "\<exists>r. Run clock b ctx state = Inr r
             \<and> distinct (map Type (Conditions (obj (builder r))))"
proof -
  obtain r where r: "Run clock b ctx state = Inr r" and o: "obj (builder r) = mutatedObj clock b"
    using Run_object by blast
  from assms
  have "distinct (map Type (filter (\<lambda>c. Type c \<in> conditionsToKeep b) (Conditions (obj b))))"
    by (rule distinct_map_filter)
  then have "distinct (map Type (Conditions (mutatedObj clock b)))"
    by (simp add: mutatedObj_def distinct_setConditions)
  with r o show ?thesis by simp
qed

theorem Run_unique_types_witness:
  "distinct (map Type (Conditions (obj readyBuilder)))
   \<and> (\<exists>r. Run (\<lambda>i. 9) readyBuilder (Context ''reconcile'') succeedingState = Inr r
         \<and> distinct (map Type (Conditions (obj (builder r)))))"
proof -
  have h: "distinct (map Type (Conditions (obj readyBuilder)))"
    by (simp add: readyBuilder_def SetCondition_def RemoveAllConditionsExcept_def
          UpdateStatus_def objReadyOverlap_def readyOld_def overlap_def)
  from h Run_unique_types [OF h, of "\<lambda>i. 9" "Context ''reconcile''" succeedingState]
  show ?thesis by (rule conjI)
qed

subsection \<open>C7\<close>



subsection \<open>C8\<close>

text \<open>
  C8 (no rollback). If the persistence call answers with an error, the run returns, the
  first two events are the persistence call on the object with the removals and upserts
  applied and the application of the wrapper to that error, and the object of the builder
  is still that object: what the loops did is not undone.
\<close>

theorem Run_no_rollback:
  assumes "UpdateObjStatus state ctx (mutatedObj clock b) = Some err"
  shows "\<exists>r. Run clock b ctx state = Inr r
           \<and> obj (builder r) = mutatedObj clock b
           \<and> take 2 (events r) = [UpdateObjStatusCalled ctx (mutatedObj clock b),
                                   UpdateErrorWrapperCalled err]"
  by (simp add: Run_failure [OF assms] split: prod.splits)

theorem Run_no_rollback_witness:
  "UpdateObjStatus failingState (Context ''reconcile'')
       (mutatedObj (\<lambda>i. 9) readyBuilder) = Some (ErrorString ''conflict'')
   \<and> (\<exists>r. Run (\<lambda>i. 9) readyBuilder (Context ''reconcile'') failingState = Inr r
         \<and> Conditions (obj (builder r)) =
             [\<lparr>Type = ''Ready'', Status = ''True'', ObservedGeneration = 2,
               LastTransitionTime = 9, Reason = ''Ready'', Message = ''done''\<rparr>])"
proof -
  have h: "UpdateObjStatus failingState (Context ''reconcile'')
             (mutatedObj (\<lambda>i. 9) readyBuilder) = Some (ErrorString ''conflict'')"
    by (simp add: failingState_def)
  have c: "Conditions (mutatedObj (\<lambda>i. 9) readyBuilder) =
             [\<lparr>Type = ''Ready'', Status = ''True'', ObservedGeneration = 2,
               LastTransitionTime = 9, Reason = ''Ready'', Message = ''done''\<rparr>]"
    by (simp add: mutatedObj_def readyBuilder_def SetCondition_def
          RemoveAllConditionsExcept_def UpdateStatus_def objReadyOverlap_def readyOld_def
          overlap_def readyNew_def updateExisting_def IsZero_def Let_def)
  from Run_no_rollback [OF h] c h show ?thesis by auto
qed

subsection \<open>C9\<close>

text \<open>
  C9 (the error log message is without effect). A run of a builder that was given a
  message through \<^verbatim>\<open>ErrorLogMessage\<close> is the run of the builder without it, and two
  runs that differ in the message alone are the same run: the same answer, the same
  builder and object afterwards, the same events, the logged message included.
\<close>

theorem ErrorLogMessage_no_effect:
  "Run clock (ErrorLogMessage msg b) ctx state = Run clock b ctx state
   \<and> Run clock (ErrorLogMessage msg b) ctx state
       = Run clock (ErrorLogMessage msg' b) ctx state"
proof -
  have "setDefaults (ErrorLogMessage m b) = setDefaults b" for m
    by (simp add: setDefaults_def ErrorLogMessage_def)
  then show ?thesis by (simp add: Run_def)
qed

subsection \<open>C10\<close>

text \<open>
  C10 (failure of the state factory). If the incoming state is of the asserted type and
  \<^verbatim>\<open>NewState\<close> answers with an error, the action returns stop-and-forget with a nil
  context; the world is what \<^verbatim>\<open>NewState\<close> left plus the one log entry, and the outcome
  is the same for any other set of pipeline steps: no step of the non-delete or of the
  delete pipeline runs.
\<close>

theorem New_state_creation_failure:
  assumes "assertTypesState env st = Some typesState"
    and "NewState stateFactory ctx typesState w = (Inl err, w1)"
  shows "New stateFactory env steps ctx st w =
           Inr ((Some StopAndForget, None),
                loggerError env ctx (Wrapped ''error creating new aws iprange state'' err)
                  ''Error'' w1)
         \<and> New stateFactory env steps' ctx st w = New stateFactory env steps ctx st w"
  using assms by (simp add: New_def)

theorem New_state_creation_failure_witness:
  "assertTypesState exampleSurroundings (7::nat) = Some 7
   \<and> NewState failingFactory (Context ''reconcile'') 7 []
        = (Inl (ErrorString ''no client''), [''NewState''])
   \<and> New failingFactory exampleSurroundings noisySteps (Context ''reconcile'') 7 []
        = Inr ((Some StopAndForget, None), [''NewState'', ''log: Error''])"
proof -
  have h1: "assertTypesState exampleSurroundings (7::nat) = Some 7"
    by (simp add: exampleSurroundings_def)
  have h2: "NewState failingFactory (Context ''reconcile'') 7 []
              = (Inl (ErrorString ''no client''), [''NewState''])"
    by (simp add: failingFactory_def)
  from New_state_creation_failure [OF h1 h2, of noisySteps noisySteps] h1 h2
  show ?thesis by (simp add: exampleSurroundings_def)
qed

end
